theory Spec2Isabelle
  imports Main "HOL-Library.Word"
begin

section \<open>Go bindings for librados: the cluster handle of rados.go\<close>

text \<open>
  The package wraps the C library librados through cgo. The library itself is not part
  of the repository, so every native function the Go code calls is a field of the record
  \<open>native\<close> below, and the cluster (everything the library can observe or change) is an
  abstract state \<open>'c\<close> that each native call receives and returns. The Go functions are
  translated with that state passed explicitly.

  \<^item> \<open>C.int\<close> is a 32-bit signed integer: \<open>cint\<close>, read with \<open>sint\<close>; unary minus wraps.
  \<^item> \<open>C.rados_t\<close> is an opaque pointer: a natural number.
  \<^item> Go's \<open>[]byte\<close> and \<open>string\<close> are both byte sequences; a byte is a \<open>char\<close>.
  \<^item> a Go \<open>error\<close> is its message; \<open>nil\<close> is \<open>None\<close>.
\<close>

subsection \<open>Data\<close>

type_synonym cint = "32 word"
type_synonym uint64 = "64 word"
type_synonym rados_t = nat
type_synonym bytes = "char list"
type_synonym error = string

text \<open>\<open>struct rados_cluster_stat_t\<close> of librados.h, with the four fields Stat reads.\<close>

record rados_cluster_stat_t =
  kb :: uint64
  kb_used :: uint64
  kb_avail :: uint64
  num_objects :: uint64

text \<open>
  The native call surface. \<open>rados_conf_read_file\<close> gets \<open>None\<close> for a nil path.
  \<open>rados_pool_list\<close> gets the length of the buffer and returns, beside its status, the
  bytes it stored from the start of the buffer. \<open>c_strerror\<close> is libc's \<open>strerror\<close>,
  already converted by \<open>C.GoString\<close>.
\<close>

record 'c native =
  rados_create :: "'c \<Rightarrow> cint \<times> rados_t \<times> 'c"
  rados_conf_read_file :: "rados_t \<Rightarrow> string option \<Rightarrow> 'c \<Rightarrow> cint \<times> 'c"
  rados_connect :: "rados_t \<Rightarrow> 'c \<Rightarrow> cint \<times> 'c"
  rados_cluster_stat :: "rados_t \<Rightarrow> 'c \<Rightarrow> cint \<times> rados_cluster_stat_t \<times> 'c"
  rados_shutdown :: "rados_t \<Rightarrow> 'c \<Rightarrow> 'c"
  rados_pool_create :: "rados_t \<Rightarrow> string \<Rightarrow> 'c \<Rightarrow> cint \<times> 'c"
  rados_pool_delete :: "rados_t \<Rightarrow> string \<Rightarrow> 'c \<Rightarrow> cint \<times> 'c"
  rados_pool_list :: "rados_t \<Rightarrow> nat \<Rightarrow> 'c \<Rightarrow> cint \<times> bytes \<times> 'c"
  c_strerror :: "cint \<Rightarrow> string"

text \<open>\<open>type Rados struct\<close>.\<close>

record Rados =
  rados :: rados_t
  size :: uint64
  used :: uint64
  avail :: uint64
  nObjects :: uint64

subsection \<open>Error text\<close>

text \<open>\<open>func strerror(cerr C.int) string\<close>: the libc text of the negated status.\<close>

definition strerror :: "'c native \<Rightarrow> cint \<Rightarrow> string" where
  "strerror N cerr = c_strerror N (- cerr)"

subsection \<open>Cluster statistics\<close>

text \<open>
  \<open>func (r *Rados) Stat() error\<close>. The receiver is a pointer: the updated structure is
  returned beside the error.
\<close>

definition Stat :: "'c native \<Rightarrow> Rados \<Rightarrow> 'c \<Rightarrow> error option \<times> Rados \<times> 'c" where
  "Stat N r s =
     (case rados_cluster_stat N (rados r) s of (cerr, cstat, s') \<Rightarrow>
        if sint cerr < 0
        then (Some (''RADOS cluster stat: '' @ strerror N cerr), r, s')
        else (None,
              r\<lparr>size := kb cstat, used := kb_used cstat,
                avail := kb_avail cstat, nObjects := num_objects cstat\<rparr>,
              s'))"

definition Size :: "Rados \<Rightarrow> uint64" where
  "Size r = size r"

definition Used :: "Rados \<Rightarrow> uint64" where
  "Used r = used r"

definition Avail :: "Rados \<Rightarrow> uint64" where
  "Avail r = avail r"

definition NObjects :: "Rados \<Rightarrow> uint64" where
  "NObjects r = nObjects r"

subsection \<open>Release\<close>

text \<open>\<open>func (r *Rados) Release() error\<close>: \<open>rados_shutdown\<close> returns nothing.\<close>

definition Release :: "'c native \<Rightarrow> Rados \<Rightarrow> 'c \<Rightarrow> error option \<times> 'c" where
  "Release N r s = (None, rados_shutdown N (rados r) s)"

subsection \<open>Construction\<close>

text \<open>
  \<open>func New(configFile string) (*Rados, error)\<close>. The result pair is Go's: a nil
  pointer is \<open>None\<close>, a nil error is \<open>None\<close>. \<open>r := &Rados{}\<close> starts with zero fields
  and \<open>rados_create\<close> stores the handle in it. The configuration is read with a nil
  path (the default locations) when \<open>configFile\<close> is empty, with
  \<open>C.CString(configFile)\<close> otherwise; either way the status read is that of
  \<open>rados_conf_read_file\<close>.
\<close>

definition New :: "'c native \<Rightarrow> string \<Rightarrow> 'c \<Rightarrow> (Rados option \<times> error option) \<times> 'c" where
  "New N configFile s =
     (case rados_create N s of (cerr1, h, s1) \<Rightarrow>
        if sint cerr1 < 0
        then ((None, Some (''RADOS create: '' @ strerror N cerr1)), s1)
        else
          (case (if configFile = '''' then rados_conf_read_file N h None s1
                 else rados_conf_read_file N h (Some configFile) s1)
           of (cerr2, s2) \<Rightarrow>
             if sint cerr2 < 0
             then ((None, Some (''RADOS config: '' @ strerror N cerr2)), s2)
             else
               (case rados_connect N h s2 of (cerr3, s3) \<Rightarrow>
                  if sint cerr3 < 0
                  then ((None, Some (''RADOS connect: '' @ strerror N cerr3)), s3)
                  else
                    (case Stat N \<lparr>rados = h, size = 0, used = 0, avail = 0, nObjects = 0\<rparr> s3
                     of (err, r, s4) \<Rightarrow>
                       (case err of
                          Some e \<Rightarrow> ((None, Some e), snd (Release N r s4))
                        | None \<Rightarrow> ((Some r, None), s4))))))"

text \<open>\<open>func NewDefault() (r *Rados, err error)\<close>.\<close>

definition NewDefault :: "'c native \<Rightarrow> 'c \<Rightarrow> (Rados option \<times> error option) \<times> 'c" where
  "NewDefault N s = New N '''' s"

subsection \<open>Pool administration\<close>



subsection \<open>Listing pools\<close>

definition NUL :: char where
  "NUL = CHR 0x00"

text \<open>
  \<open>buf = make([]byte, bufSize)\<close> is \<open>bufSize\<close> zero bytes; the native call overwrites a
  prefix of it and never writes past its length.
\<close>

definition fill_buffer :: "nat \<Rightarrow> bytes \<Rightarrow> bytes" where
  "fill_buffer bufSize out = take bufSize out @ replicate (bufSize - length out) NUL"

text \<open>
  \<open>bytes.Split(s, sep)\<close> of the Go library for a separator of one byte: the slice up to
  the first separator, then the split of what follows it; the rest when no separator is
  left.
\<close>

function bytes_Split :: "bytes \<Rightarrow> char \<Rightarrow> bytes list" where
  "bytes_Split s sep =
     (if sep \<in> set s
      then takeWhile (\<lambda>b. b \<noteq> sep) s # bytes_Split (tl (dropWhile (\<lambda>b. b \<noteq> sep) s)) sep
      else [s])"
  by pat_completeness auto
termination
proof (relation "measure (\<lambda>(s, sep). length s)")
  show "wf (measure (\<lambda>(s :: bytes, sep :: char). length s))"
    by simp
next
  fix s :: bytes and sep :: char
  assume "sep \<in> set s"
  then have "dropWhile (\<lambda>b. b \<noteq> sep) s \<noteq> []"
    by simp
  then have "length (tl (dropWhile (\<lambda>b. b \<noteq> sep) s)) < length (dropWhile (\<lambda>b. b \<noteq> sep) s)"
    by (cases "dropWhile (\<lambda>b. b \<noteq> sep) s") simp_all
  also have "\<dots> \<le> length s"
    by (rule length_dropWhile_le)
  finally show "((tl (dropWhile (\<lambda>b. b \<noteq> sep) s), sep), (s, sep))
                  \<in> measure (\<lambda>(s, sep). length s)"
    by simp
qed

text \<open>
  Lines 181 to 188 of \<open>ListPools\<close>: the segments are visited in order and every one of
  non-zero length is appended, as a string, to \<open>pools\<close>.
\<close>

fun collect_pools :: "string list \<Rightarrow> bytes list \<Rightarrow> string list" where
  "collect_pools pools [] = pools"
| "collect_pools pools (p # poolsBuf) =
     (if length p = 0 then collect_pools pools poolsBuf
      else collect_pools (pools @ [p]) poolsBuf)"

definition parse_pools :: "bytes \<Rightarrow> string list" where
  "parse_pools buf = collect_pools [] (bytes_Split buf NUL)"

text \<open>
  Lines 160 to 177: the retry loop, from the current \<open>bufSize\<close>. \<open>byteSliceToBuffer\<close>
  hands the native call the address of \<open>buf\<close> and its length, which is \<open>bufSize\<close>
  (never zero here). The loop returns the error of a negative status, or the buffer of
  the call that fitted; \<open>int(cbufsize)\<close> is the signed value of the count. \<open>None\<close>
  stands for a loop that does not end.
\<close>

partial_function (option) pool_list_loop ::
  "'c native \<Rightarrow> rados_t \<Rightarrow> nat \<Rightarrow> 'c \<Rightarrow> ((error + bytes) \<times> 'c) option" where
  "pool_list_loop N h bufSize s =
     (case rados_pool_list N h bufSize s of (cbufsize, out, s') \<Rightarrow>
        if sint cbufsize < 0
        then Some (Inl (''RADOS list pools: '' @ strerror N cbufsize), s')
        else if sint cbufsize > int bufSize
        then pool_list_loop N h (nat (sint cbufsize)) s'
        else Some (Inr (fill_buffer bufSize out), s'))"

text \<open>
  \<open>func (r *Rados) ListPools() ([]string, error)\<close>: a nil slice is \<open>None\<close>.
\<close>

definition ListPools ::
  "'c native \<Rightarrow> Rados \<Rightarrow> 'c \<Rightarrow> ((string list option \<times> error option) \<times> 'c) option" where
  "ListPools N r s =
     (case pool_list_loop N (rados r) 256 s of
        None \<Rightarrow> None
      | Some (Inl e, s') \<Rightarrow> Some ((None, Some e), s')
      | Some (Inr buf, s') \<Rightarrow> Some ((Some (parse_pools buf), None), s'))"

text \<open>
  The two return statements of \<open>ListPools\<close>, as a function of what the loop produced.
\<close>

definition finish_list ::
  "(error + bytes) \<times> 'c \<Rightarrow> (string list option \<times> error option) \<times> 'c" where
  "finish_list x =
     (case x of
        (Inl e, s') \<Rightarrow> ((None, Some e), s')
      | (Inr buf, s') \<Rightarrow> ((Some (parse_pools buf), None), s'))"

subsection \<open>The size-negotiation protocol of the specification\<close>

text \<open>
  Section 4.2 of the specification, step by step, as a relation between the buffer size
  and cluster state an attempt starts from and the result of the listing. It is what
  \<open>ListPools\<close> is compared with below; the parsing of a complete buffer is \<open>parse_pools\<close>.
  \<^item> \<open>abort\<close>: the native call returns a negative status; the failure is mapped and the
    protocol stops.
  \<^item> \<open>retry\<close>: it returns a non-negative count that exceeds the size of the buffer; the
    next attempt uses a buffer of exactly that count.
  \<^item> \<open>complete\<close>: it returns a non-negative count that the buffer holds; the buffer is
    parsed and returned.
\<close>

inductive negotiation_protocol ::
  "'c native \<Rightarrow> rados_t \<Rightarrow> nat \<Rightarrow> 'c \<Rightarrow> (string list option \<times> error option) \<times> 'c \<Rightarrow> bool"
  where
  abort: "rados_pool_list N h bufSize s = (status, out, s') \<Longrightarrow> sint status < 0 \<Longrightarrow>
          negotiation_protocol N h bufSize s
            ((None, Some (''RADOS list pools: '' @ c_strerror N (- status))), s')"
| retry: "rados_pool_list N h bufSize s = (required, out, s') \<Longrightarrow> 0 \<le> sint required \<Longrightarrow>
          int bufSize < sint required \<Longrightarrow>
          negotiation_protocol N h (nat (sint required)) s' res \<Longrightarrow>
          negotiation_protocol N h bufSize s res"
| complete: "rados_pool_list N h bufSize s = (required, out, s') \<Longrightarrow> 0 \<le> sint required \<Longrightarrow>
          sint required \<le> int bufSize \<Longrightarrow>
          negotiation_protocol N h bufSize s
            ((Some (parse_pools (fill_buffer bufSize out)), None), s')"

code_pred (modes: i \<Rightarrow> i \<Rightarrow> i \<Rightarrow> i \<Rightarrow> o \<Rightarrow> bool) negotiation_protocol .

subsection \<open>A scripted native library\<close>

text \<open>
  A concrete native library for running the functions above. Its cluster state is the
  log of the native calls made so far. The statuses of the calls are its parameters;
  \<open>pl\<close> answers \<open>rados_pool_list\<close> from the log and the length of the buffer.
\<close>

definition scripted ::
  "cint \<Rightarrow> cint \<Rightarrow> cint \<Rightarrow> cint \<Rightarrow> cint \<Rightarrow> (string list \<Rightarrow> nat \<Rightarrow> cint \<times> bytes)
     \<Rightarrow> string list native" where
  "scripted e1 e2 e3 e4 e5 pl =
     \<lparr>rados_create = (\<lambda>s. (e1, 7, s @ [''rados_create''])),
      rados_conf_read_file =
        (\<lambda>h p s. (e2, s @ [case p of None \<Rightarrow> ''rados_conf_read_file nil''
                                | Some f \<Rightarrow> ''rados_conf_read_file '' @ f])),
      rados_connect = (\<lambda>h s. (e3, s @ [''rados_connect''])),
      rados_cluster_stat =
        (\<lambda>h s. (e4, \<lparr>kb = 1000, kb_used = 400, kb_avail = 600, num_objects = 12\<rparr>,
                 s @ [''rados_cluster_stat''])),
      rados_shutdown = (\<lambda>h s. s @ [''rados_shutdown'']),
      rados_pool_create = (\<lambda>h n s. (e5, s @ [''rados_pool_create '' @ n])),
      rados_pool_delete = (\<lambda>h n s. (e5, s @ [''rados_pool_delete '' @ n])),
      rados_pool_list = (\<lambda>h n s. (fst (pl s n), snd (pl s n), s @ [''rados_pool_list''])),
      c_strerror = (\<lambda>e. if e = 2 then ''No such file or directory'' else ''Unknown error'')\<rparr>"

text \<open>A cluster with the pools \<open>data\<close> and \<open>metadata\<close>, whose list needs 300 bytes.\<close>

definition two_pools :: "string list \<Rightarrow> nat \<Rightarrow> cint \<times> bytes" where
  "two_pools log n =
     (if n < 300 then (300, [])
      else (300, ''data'' @ [NUL] @ ''metadata'' @ [NUL, NUL]))"

text \<open>A native call that reports the name \<open>a\<close> twice.\<close>

definition repeated_name :: "string list \<Rightarrow> nat \<Rightarrow> cint \<times> bytes" where
  "repeated_name log n = (5, [CHR ''a'', NUL, CHR ''a'', NUL, NUL])"

text \<open>
  A native call that, for its first \<open>K\<close> calls, asks for one byte more than the buffer
  it was given, and then accepts the buffer.
\<close>

definition demanding :: "nat \<Rightarrow> string list \<Rightarrow> nat \<Rightarrow> cint \<times> bytes" where
  "demanding K log n =
     (if length log < K then (word_of_nat (Suc n), []) else (word_of_nat n, []))"

definition a_handle :: Rados where
  "a_handle = \<lparr>rados = 7, size = 1, used = 2, avail = 3, nObjects = 4\<rparr>"

text \<open>
  What the specification asks of the native pool-list call for the loop to end: once a
  call has reported a count beyond its buffer, the next call, with a buffer at least
  that large, returns a non-negative count that the buffer holds.
\<close>

definition pool_list_contract :: "'c native \<Rightarrow> rados_t \<Rightarrow> bool" where
  "pool_list_contract N h \<longleftrightarrow>
     (\<forall>s n c out s' m.
        rados_pool_list N h n s = (c, out, s') \<and> 0 \<le> sint c \<and> int n < sint c
          \<and> nat (sint c) \<le> m \<longrightarrow>
        (\<exists>c' out' s''. rados_pool_list N h m s' = (c', out', s'')
           \<and> 0 \<le> sint c' \<and> sint c' \<le> int m))"

section \<open>The pool-scoped session\<close>

text \<open>
  Modelled from the spec: the Context type and its methods \<open>Stat\<close>, \<open>Put\<close>, \<open>Get\<close> and
  \<open>Open\<close>. Their Go source is not among the source files; only the test that calls them
  (\<open>Test_RadosObject\<close>) is. The definitions follow sections 3, 4.3 and 8 of the
  specification. The objects of the pool the session is bound to are a map from the
  object name to the object's bytes; an operation that changes the pool returns the new
  map. The errors are those of the taxonomy of section 7; the specification gives a
  condition for the not-found error only, so no operation below returns \<open>IOError\<close>.
\<close>

datatype io_error = NotFoundError string | IOError string

text \<open>
  Modelled from the spec: ObjectInfo, a value with the name and the size in bytes of an
  object, and Object, the open handle with its cached name and last-known size.
\<close>

record ObjectInfo =
  info_name :: string
  info_size :: nat

record Object =
  obj_name :: string
  obj_size :: nat

type_synonym pool = "string \<rightharpoonup> bytes"

text \<open>
  Modelled from the spec: \<open>Context.Stat\<close>, missing from the source files. It returns the
  current name and size of the object and fails if the object does not exist.
\<close>

definition Context_Stat :: "pool \<Rightarrow> string \<Rightarrow> io_error + ObjectInfo" where
  "Context_Stat objs name =
     (case objs name of
        None \<Rightarrow> Inl (NotFoundError name)
      | Some content \<Rightarrow> Inr \<lparr>info_name = name, info_size = length content\<rparr>)"

text \<open>
  Modelled from the spec: \<open>Context.Put\<close>, missing from the source files. It writes the
  full byte content to the object, overwriting any existing content and truncating the
  object to exactly the length of the data: a whole-object replace.
\<close>

definition Context_Put :: "pool \<Rightarrow> string \<Rightarrow> bytes \<Rightarrow> io_error + pool" where
  "Context_Put objs name d = Inr (objs(name \<mapsto> d))"

text \<open>
  Modelled from the spec: \<open>Context.Get\<close>, missing from the source files. It reads the
  object's full content: it learns the size of the object as \<open>Stat\<close> does, and reads
  that many bytes of the object. It fails as \<open>Stat\<close> does on an object that does not
  exist.
\<close>

definition Context_Get :: "pool \<Rightarrow> string \<Rightarrow> io_error + bytes" where
  "Context_Get objs name =
     (case Context_Stat objs name of
        Inl e \<Rightarrow> Inl e
      | Inr info \<Rightarrow>
          (case objs name of
             None \<Rightarrow> Inl (NotFoundError name)
           | Some content \<Rightarrow> Inr (take (info_size info) content)))"

text \<open>
  Modelled from the spec: \<open>Context.Open\<close>, missing from the source files. It returns a
  handle with the name and size of the object; opening a name that does not exist
  succeeds and creates an object of length zero.
\<close>

definition Context_Open :: "pool \<Rightarrow> string \<Rightarrow> io_error + (Object \<times> pool)" where
  "Context_Open objs name =
     (case objs name of
        None \<Rightarrow> Inr (\<lparr>obj_name = name, obj_size = 0\<rparr>, objs(name \<mapsto> []))
      | Some content \<Rightarrow> Inr (\<lparr>obj_name = name, obj_size = length content\<rparr>, objs))"



section \<open>Properties of the cluster handle\<close>

declare bytes_Split.simps [simp del]

subsection \<open>The calls of the scripted library\<close>

lemma scripted_calls:
  "rados_create (scripted e1 e2 e3 e4 e5 pl) s = (e1, 7, s @ [''rados_create''])"
  "rados_conf_read_file (scripted e1 e2 e3 e4 e5 pl) h p s =
     (e2, s @ [case p of None \<Rightarrow> ''rados_conf_read_file nil''
                | Some f \<Rightarrow> ''rados_conf_read_file '' @ f])"
  "rados_connect (scripted e1 e2 e3 e4 e5 pl) h s = (e3, s @ [''rados_connect''])"
  "rados_cluster_stat (scripted e1 e2 e3 e4 e5 pl) h s =
     (e4, \<lparr>kb = 1000, kb_used = 400, kb_avail = 600, num_objects = 12\<rparr>,
      s @ [''rados_cluster_stat''])"
  "c_strerror (scripted e1 e2 e3 e4 e5 pl) e =
     (if e = 2 then ''No such file or directory'' else ''Unknown error'')"
  "rados_shutdown (scripted e1 e2 e3 e4 e5 pl) h s = s @ [''rados_shutdown'']"
  by (simp_all add: scripted_def)

subsection \<open>Stat\<close>

text \<open>
  C6. \<open>Rados.Stat\<close> updates the cached statistics all together or not at all. When the
  native call returns a negative status, Stat returns an error and the four cached
  fields are what they were. When it succeeds, the four fields hold the fetched values,
  and \<open>Size\<close>, \<open>Used\<close>, \<open>Avail\<close> and \<open>NObjects\<close> return them.
\<close>

theorem Stat_atomic:
  assumes "rados_cluster_stat N (rados r) s = (cerr, cstat, s')"
  shows "(sint cerr < 0 \<longrightarrow>
            (\<exists>r'. Stat N r s = (Some (''RADOS cluster stat: '' @ strerror N cerr), r', s')
               \<and> Size r' = Size r \<and> Used r' = Used r
               \<and> Avail r' = Avail r \<and> NObjects r' = NObjects r))
       \<and> (\<not> sint cerr < 0 \<longrightarrow>
            (\<exists>r'. Stat N r s = (None, r', s')
               \<and> Size r' = kb cstat \<and> Used r' = kb_used cstat
               \<and> Avail r' = kb_avail cstat \<and> NObjects r' = num_objects cstat))"
  using assms by (simp add: Stat_def Size_def Used_def Avail_def NObjects_def)

theorem Stat_atomic_witness:
  "\<exists>r'. Stat (scripted 0 0 0 (- 5) 0 two_pools) a_handle []
           = (Some ''RADOS cluster stat: Unknown error'', r', [''rados_cluster_stat''])
      \<and> Size r' = 1 \<and> Used r' = 2 \<and> Avail r' = 3 \<and> NObjects r' = 4"
  using Stat_atomic [of "scripted 0 0 0 (- 5) 0 two_pools" a_handle "[]" "- 5"
      "\<lparr>kb = 1000, kb_used = 400, kb_avail = 600, num_objects = 12\<rparr>" "[''rados_cluster_stat'']"]
  by (simp add: scripted_def a_handle_def strerror_def Size_def Used_def Avail_def NObjects_def)

subsection \<open>Release\<close>

text \<open>
  C9. \<open>Rados.Release\<close> always returns nil: whatever the handle and the state of the
  cluster, the error it returns is none.
\<close>

theorem Release_returns_nil: "fst (Release N r s) = None"
  by (simp add: Release_def)

subsection \<open>New and NewDefault\<close>

text \<open>
  \<open>New\<close> with its configuration step written as one call of \<open>rados_conf_read_file\<close>.
\<close>

lemma New_steps:
  "New N configFile s =
     (case rados_create N s of (cerr1, h, s1) \<Rightarrow>
        if sint cerr1 < 0
        then ((None, Some (''RADOS create: '' @ c_strerror N (- cerr1))), s1)
        else
          (case rados_conf_read_file N h (if configFile = '''' then None else Some configFile) s1
           of (cerr2, s2) \<Rightarrow>
             if sint cerr2 < 0
             then ((None, Some (''RADOS config: '' @ c_strerror N (- cerr2))), s2)
             else
               (case rados_connect N h s2 of (cerr3, s3) \<Rightarrow>
                  if sint cerr3 < 0
                  then ((None, Some (''RADOS connect: '' @ c_strerror N (- cerr3))), s3)
                  else
                    (case rados_cluster_stat N h s3 of (cerr4, cstat, s4) \<Rightarrow>
                       if sint cerr4 < 0
                       then ((None, Some (''RADOS cluster stat: '' @ c_strerror N (- cerr4))),
                             rados_shutdown N h s4)
                       else ((Some \<lparr>rados = h, size = kb cstat, used = kb_used cstat,
                                     avail = kb_avail cstat, nObjects = num_objects cstat\<rparr>,
                              None), s4)))))"
  by (simp add: New_def Stat_def Release_def strerror_def split: prod.splits)

text \<open>
  C5. \<open>New\<close> is all-or-nothing. With the outcomes of the four native calls named
  (\<open>rados_create\<close>; \<open>rados_conf_read_file\<close> on the given path, or on the nil path when
  the path is empty; \<open>rados_connect\<close>; \<open>rados_cluster_stat\<close>), the first call that
  returns a negative status makes \<open>New\<close> return no handle and the error of that step;
  when that step is the statistics fetch, the cluster state returned is the one after
  \<open>rados_shutdown\<close> on the handle. When no step fails the handle returned is connected
  and carries the fetched statistics. In every case the handle is nil exactly when the
  error is not.
\<close>

theorem New_all_or_nothing:
  assumes "rados_create N s = (cerr1, h, s1)"
      and "rados_conf_read_file N h (if configFile = '''' then None else Some configFile) s1
             = (cerr2, s2)"
      and "rados_connect N h s2 = (cerr3, s3)"
      and "rados_cluster_stat N h s3 = (cerr4, cstat, s4)"
  shows "(sint cerr1 < 0 \<longrightarrow>
            New N configFile s = ((None, Some (''RADOS create: '' @ strerror N cerr1)), s1))
       \<and> (0 \<le> sint cerr1 \<and> sint cerr2 < 0 \<longrightarrow>
            New N configFile s = ((None, Some (''RADOS config: '' @ strerror N cerr2)), s2))
       \<and> (0 \<le> sint cerr1 \<and> 0 \<le> sint cerr2 \<and> sint cerr3 < 0 \<longrightarrow>
            New N configFile s = ((None, Some (''RADOS connect: '' @ strerror N cerr3)), s3))
       \<and> (0 \<le> sint cerr1 \<and> 0 \<le> sint cerr2 \<and> 0 \<le> sint cerr3 \<and> sint cerr4 < 0 \<longrightarrow>
            New N configFile s = ((None, Some (''RADOS cluster stat: '' @ strerror N cerr4)),
                                  rados_shutdown N h s4))
       \<and> (0 \<le> sint cerr1 \<and> 0 \<le> sint cerr2 \<and> 0 \<le> sint cerr3 \<and> 0 \<le> sint cerr4 \<longrightarrow>
            New N configFile s =
              ((Some \<lparr>rados = h, size = kb cstat, used = kb_used cstat,
                      avail = kb_avail cstat, nObjects = num_objects cstat\<rparr>, None), s4))
       \<and> (fst (fst (New N configFile s)) = None \<longleftrightarrow> snd (fst (New N configFile s)) \<noteq> None)"
  using assms by (simp add: New_steps strerror_def)

text \<open>
  Two runs: a statistics fetch that fails with status -5 after the three earlier steps
  succeeded, and a configuration path whose native load fails with status -2.
\<close>

theorem New_all_or_nothing_witness:
  "New (scripted 0 0 0 (- 5) 0 two_pools) ''ceph.conf'' [] =
     ((None, Some ''RADOS cluster stat: Unknown error''),
      [''rados_create'', ''rados_conf_read_file ceph.conf'', ''rados_connect'',
       ''rados_cluster_stat'', ''rados_shutdown''])
   \<and> New (scripted 0 (- 2) 0 0 0 two_pools) ''path that does not exist'' [] =
     ((None, Some ''RADOS config: No such file or directory''),
      [''rados_create'', ''rados_conf_read_file path that does not exist''])"
  using New_all_or_nothing [of "scripted 0 0 0 (- 5) 0 two_pools" "[]" 0 7 "[''rados_create'']"
      "''ceph.conf''" 0 "[''rados_create'', ''rados_conf_read_file ceph.conf'']"
      0 "[''rados_create'', ''rados_conf_read_file ceph.conf'', ''rados_connect'']"
      "- 5" "\<lparr>kb = 1000, kb_used = 400, kb_avail = 600, num_objects = 12\<rparr>"
      "[''rados_create'', ''rados_conf_read_file ceph.conf'', ''rados_connect'',
        ''rados_cluster_stat'']"]
    New_all_or_nothing [of "scripted 0 (- 2) 0 0 0 two_pools" "[]" 0 7 "[''rados_create'']"
      "''path that does not exist''" "- 2"
      "[''rados_create'', ''rados_conf_read_file path that does not exist'']"
      0 "[''rados_create'', ''rados_conf_read_file path that does not exist'', ''rados_connect'']"
      0 "\<lparr>kb = 1000, kb_used = 400, kb_avail = 600, num_objects = 12\<rparr>"
      "[''rados_create'', ''rados_conf_read_file path that does not exist'', ''rados_connect'',
        ''rados_cluster_stat'']"]
  by (simp add: scripted_calls strerror_def)

text \<open>
  C10. \<open>NewDefault\<close> is \<open>New\<close> with the empty configuration path: the same handle, error
  and cluster state. Its configuration step is the native read with a nil path, that
  is, from the library's default locations: with the outcomes of \<open>rados_create\<close>, of
  \<open>rados_conf_read_file\<close> on the nil path, of \<open>rados_connect\<close> and of
  \<open>rados_cluster_stat\<close> named, the result of \<open>NewDefault\<close> is fixed by them, and no
  read with a path takes part in it.
\<close>

theorem NewDefault_is_New_empty:
  assumes "rados_create N s = (cerr1, h, s1)"
      and "rados_conf_read_file N h None s1 = (cerr2, s2)"
      and "rados_connect N h s2 = (cerr3, s3)"
      and "rados_cluster_stat N h s3 = (cerr4, cstat, s4)"
  shows "NewDefault N s = New N '''' s
       \<and> NewDefault N s =
           (if sint cerr1 < 0
            then ((None, Some (''RADOS create: '' @ c_strerror N (- cerr1))), s1)
            else if sint cerr2 < 0
            then ((None, Some (''RADOS config: '' @ c_strerror N (- cerr2))), s2)
            else if sint cerr3 < 0
            then ((None, Some (''RADOS connect: '' @ c_strerror N (- cerr3))), s3)
            else if sint cerr4 < 0
            then ((None, Some (''RADOS cluster stat: '' @ c_strerror N (- cerr4))),
                  rados_shutdown N h s4)
            else ((Some \<lparr>rados = h, size = kb cstat, used = kb_used cstat,
                          avail = kb_avail cstat, nObjects = num_objects cstat\<rparr>, None), s4))"
  using assms by (simp add: NewDefault_def New_steps)

text \<open>
  A run of \<open>NewDefault\<close> in which every step succeeds: the log of the native calls
  holds the read with the nil path, and a run in which that read fails with status -2.
\<close>

theorem NewDefault_is_New_empty_witness:
  "NewDefault (scripted 0 0 0 0 0 two_pools) [] =
     ((Some \<lparr>rados = 7, size = 1000, used = 400, avail = 600, nObjects = 12\<rparr>, None),
      [''rados_create'', ''rados_conf_read_file nil'', ''rados_connect'',
       ''rados_cluster_stat''])
   \<and> NewDefault (scripted 0 (- 2) 0 0 0 two_pools) [] =
     ((None, Some ''RADOS config: No such file or directory''),
      [''rados_create'', ''rados_conf_read_file nil''])"
  using NewDefault_is_New_empty [where N = "scripted 0 0 0 0 0 two_pools" and s = "[]",
      OF scripted_calls(1) scripted_calls(2) scripted_calls(3) scripted_calls(4),
      THEN conjunct2]
    NewDefault_is_New_empty [where N = "scripted 0 (- 2) 0 0 0 two_pools" and s = "[]",
      OF scripted_calls(1) scripted_calls(2) scripted_calls(3) scripted_calls(4),
      THEN conjunct2]
  by (simp add: scripted_calls)

subsection \<open>ListPools and the negotiation protocol\<close>

lemma ListPools_finish:
  "ListPools N r s = map_option finish_list (pool_list_loop N (rados r) 256 s)"
  by (simp add: ListPools_def finish_list_def split: option.splits sum.splits prod.splits)

lemma protocol_loop:
  "negotiation_protocol N h n s res \<Longrightarrow>
   map_option finish_list (pool_list_loop N h n s) = Some res"
proof (induction rule: negotiation_protocol.induct)
  case (abort N h bufSize s status out s')
  then show ?case
    by (subst pool_list_loop.simps) (simp add: finish_list_def strerror_def)
next
  case (retry N h bufSize s required out s' res)
  then show ?case
    by (subst pool_list_loop.simps) simp
next
  case (complete N h bufSize s required out s')
  then show ?case
    by (subst pool_list_loop.simps) (simp add: finish_list_def)
qed

lemma loop_protocol:
  "pool_list_loop N h n s = Some x \<Longrightarrow> negotiation_protocol N h n s (finish_list x)"
proof (induction rule: pool_list_loop.raw_induct [rotated 1, consumes 1, case_names step])
  case (step loop N h bufSize s x)
  obtain c out s' where call: "rados_pool_list N h bufSize s = (c, out, s')"
    by (cases "rados_pool_list N h bufSize s") auto
  show ?case
  proof (cases "sint c < 0")
    case True
    with step(2) call have "x = (Inl (''RADOS list pools: '' @ strerror N c), s')"
      by simp
    then show ?thesis
      using negotiation_protocol.abort [OF call True]
      by (simp add: finish_list_def strerror_def)
  next
    case False
    show ?thesis
    proof (cases "int bufSize < sint c")
      case True
      with step(2) call False have "loop N h (nat (sint c)) s' = Some x"
        by simp
      then have "negotiation_protocol N h (nat (sint c)) s' (finish_list x)"
        by (rule step(1))
      with call False True show ?thesis
        by (auto intro: negotiation_protocol.retry)
    next
      case fits: False
      with step(2) call False have "x = (Inr (fill_buffer bufSize out), s')"
        by simp
      then show ?thesis
        using negotiation_protocol.complete [OF call] False fits
        by (simp add: finish_list_def)
    qed
  qed
qed

text \<open>
  C2. \<open>ListPools\<close> follows the size-negotiation protocol: it returns a result exactly
  when the protocol, started with a buffer of 256 bytes, yields that result. So each
  attempt either aborts with the mapped error of a negative status, or retries with a
  buffer of exactly the required count when that count exceeds the buffer, or stops
  and returns the parsed buffer.
\<close>

theorem ListPools_follows_protocol:
  "ListPools N r s = Some res \<longleftrightarrow> negotiation_protocol N (rados r) 256 s res"
proof
  assume "ListPools N r s = Some res"
  then obtain x where "pool_list_loop N (rados r) 256 s = Some x" and "res = finish_list x"
    by (auto simp: ListPools_finish)
  then show "negotiation_protocol N (rados r) 256 s res"
    by (simp add: loop_protocol)
next
  assume "negotiation_protocol N (rados r) 256 s res"
  then show "ListPools N r s = Some res"
    by (simp add: ListPools_finish protocol_loop)
qed

subsection \<open>Splitting and parsing the buffer\<close>

lemma collect_pools_filter: "collect_pools acc segs = acc @ filter (\<lambda>p. p \<noteq> []) segs"
  by (induction segs arbitrary: acc) simp_all

lemma parse_pools_filter: "parse_pools buf = filter (\<lambda>p. p \<noteq> []) (bytes_Split buf NUL)"
  by (simp add: parse_pools_def collect_pools_filter)

lemma bytes_Split_no_sep: "p \<in> set (bytes_Split s sep) \<Longrightarrow> sep \<notin> set p"
proof (induction s sep rule: bytes_Split.induct)
  case (1 s sep)
  show ?case
  proof (cases "sep \<in> set s")
    case True
    with "1.prems" have "p = takeWhile (\<lambda>b. b \<noteq> sep) s
        \<or> p \<in> set (bytes_Split (tl (dropWhile (\<lambda>b. b \<noteq> sep) s)) sep)"
      by (subst (asm) bytes_Split.simps) simp
    then show ?thesis
    proof
      assume "p = takeWhile (\<lambda>b. b \<noteq> sep) s"
      then show ?thesis
        by (auto dest: set_takeWhileD)
    next
      assume "p \<in> set (bytes_Split (tl (dropWhile (\<lambda>b. b \<noteq> sep) s)) sep)"
      with True show ?thesis
        by (rule "1.IH")
    qed
  next
    case False
    with "1.prems" show ?thesis
      by (subst (asm) bytes_Split.simps) simp
  qed
qed

lemma bytes_Split_join: "concat (map (\<lambda>p. p @ [sep]) (bytes_Split s sep)) = s @ [sep]"
proof (induction s sep rule: bytes_Split.induct)
  case (1 s sep)
  show ?case
  proof (cases "sep \<in> set s")
    case True
    then have ne: "dropWhile (\<lambda>b. b \<noteq> sep) s \<noteq> []"
      by simp
    then have "hd (dropWhile (\<lambda>b. b \<noteq> sep) s) = sep"
      using hd_dropWhile [of "\<lambda>b. b \<noteq> sep" s] by simp
    with ne have "dropWhile (\<lambda>b. b \<noteq> sep) s = sep # tl (dropWhile (\<lambda>b. b \<noteq> sep) s)"
      by (cases "dropWhile (\<lambda>b. b \<noteq> sep) s") simp_all
    then have "s = takeWhile (\<lambda>b. b \<noteq> sep) s @ sep # tl (dropWhile (\<lambda>b. b \<noteq> sep) s)"
      by (metis takeWhile_dropWhile_id)
    moreover have "concat (map (\<lambda>p. p @ [sep]) (bytes_Split s sep)) =
        takeWhile (\<lambda>b. b \<noteq> sep) s @ sep # tl (dropWhile (\<lambda>b. b \<noteq> sep) s) @ [sep]"
      using True "1.IH" by (subst bytes_Split.simps) simp
    ultimately show ?thesis
      by (metis append.assoc append_Cons)
  next
    case False
    then show ?thesis
      by (subst bytes_Split.simps) simp
  qed
qed

lemma bytes_Split_segment:
  "sep \<notin> set p \<Longrightarrow> bytes_Split (p @ sep # rest) sep = p # bytes_Split rest sep"
proof -
  assume "sep \<notin> set p"
  then have "takeWhile (\<lambda>b. b \<noteq> sep) (p @ sep # rest) = p"
    and "dropWhile (\<lambda>b. b \<noteq> sep) (p @ sep # rest) = sep # rest"
    by (induction p) auto
  then show ?thesis
    by (subst bytes_Split.simps) simp
qed

lemma parse_pools_zeros: "set zs \<subseteq> {NUL} \<Longrightarrow> parse_pools zs = []"
proof (induction zs)
  case Nil
  show ?case
    by (simp add: parse_pools_filter bytes_Split.simps [of "[]"])
next
  case (Cons z zs)
  then have "z = NUL" by simp
  then have "bytes_Split (z # zs) NUL = [] # bytes_Split zs NUL"
    using bytes_Split_segment [of NUL "[]" zs] by simp
  with Cons show ?case
    by (simp add: parse_pools_filter)
qed

lemma parse_pools_packed:
  assumes "\<forall>x \<in> set names. x \<noteq> [] \<and> NUL \<notin> set x" and "set zs \<subseteq> {NUL}"
  shows "parse_pools (concat (map (\<lambda>x. x @ [NUL]) names) @ zs) = names"
  using assms(1)
proof (induction names)
  case Nil
  with assms(2) show ?case
    by (simp add: parse_pools_zeros)
next
  case (Cons x names)
  then have "bytes_Split (x @ NUL # concat (map (\<lambda>x. x @ [NUL]) names) @ zs) NUL
      = x # bytes_Split (concat (map (\<lambda>x. x @ [NUL]) names) @ zs) NUL"
    by (simp add: bytes_Split_segment)
  with Cons show ?case
    by (simp add: parse_pools_filter)
qed

lemma loop_fitting_call:
  "pool_list_loop N h n s = Some x \<Longrightarrow> x = (Inr buf, s') \<Longrightarrow>
   \<exists>m required out s0. rados_pool_list N h m s0 = (required, out, s') \<and> 0 \<le> sint required
      \<and> sint required \<le> int m \<and> n \<le> m \<and> buf = fill_buffer m out"
proof (induction arbitrary: buf s' rule: pool_list_loop.raw_induct [rotated 1, consumes 1, case_names step])
  case (step loop N h bufSize s x)
  obtain c out s1 where call: "rados_pool_list N h bufSize s = (c, out, s1)"
    by (cases "rados_pool_list N h bufSize s") auto
  show ?case
  proof (cases "\<not> sint c < 0 \<and> int bufSize < sint c")
    case True
    with step(2) call have "loop N h (nat (sint c)) s1 = Some x"
      by simp
    from step(1) [OF this step(3)] obtain m required out' s0
      where "rados_pool_list N h m s0 = (required, out', s')" "0 \<le> sint required"
        "sint required \<le> int m" "nat (sint c) \<le> m" "buf = fill_buffer m out'"
      by blast
    moreover from True \<open>nat (sint c) \<le> m\<close> have "bufSize \<le> m"
      by linarith
    ultimately show ?thesis
      by blast
  next
    case False
    with step(2) step(3) call have "\<not> sint c < 0" and "s1 = s'" and "buf = fill_buffer bufSize out"
      by (auto split: if_splits)
    with call False show ?thesis
      by (intro exI [of _ bufSize] exI [of _ c] exI [of _ out] exI [of _ s]) auto
  qed
qed

subsection \<open>Runs against the scripted library\<close>

lemma scripted_pool_list:
  "rados_pool_list (scripted e1 e2 e3 e4 e5 pl) h n s
     = (fst (pl s n), snd (pl s n), s @ [''rados_pool_list''])"
  by (simp add: scripted_def)

lemma two_pools_buffer:
  "fill_buffer 300 (''data'' @ [NUL] @ ''metadata'' @ [NUL, NUL])
     = concat (map (\<lambda>x. x @ [NUL]) [''data'', ''metadata'']) @ NUL # replicate 285 NUL"
  by (simp add: fill_buffer_def)

lemma two_pools_run:
  "ListPools (scripted e1 e2 e3 e4 e5 two_pools) r [] =
     Some ((Some [''data'', ''metadata''], None), [''rados_pool_list'', ''rados_pool_list''])"
proof -
  let ?N = "scripted e1 e2 e3 e4 e5 two_pools"
  have "parse_pools (fill_buffer 300 (''data'' @ [NUL] @ ''metadata'' @ [NUL, NUL]))
          = [''data'', ''metadata'']"
    unfolding two_pools_buffer by (rule parse_pools_packed) (simp_all add: NUL_def)
  moreover have "pool_list_loop ?N (rados r) 300 [''rados_pool_list'']
      = Some (Inr (fill_buffer 300 (''data'' @ [NUL] @ ''metadata'' @ [NUL, NUL])),
              [''rados_pool_list'', ''rados_pool_list''])"
    by (subst pool_list_loop.simps) (simp add: scripted_pool_list two_pools_def)
  moreover have "pool_list_loop ?N (rados r) 256 []
      = pool_list_loop ?N (rados r) 300 [''rados_pool_list'']"
    by (subst pool_list_loop.simps) (simp add: scripted_pool_list two_pools_def)
  ultimately show ?thesis
    by (simp add: ListPools_finish finish_list_def)
qed

theorem ListPools_follows_protocol_witness:
  "negotiation_protocol (scripted 0 0 0 0 0 two_pools) 7 256 []
     ((Some [''data'', ''metadata''], None), [''rados_pool_list'', ''rados_pool_list''])"
  using ListPools_follows_protocol [of "scripted 0 0 0 0 0 two_pools" a_handle "[]"
      "((Some [''data'', ''metadata''], None), [''rados_pool_list'', ''rados_pool_list''])"]
  by (simp add: two_pools_run a_handle_def)

subsection \<open>Termination of the retry loop\<close>

lemma sint_word_of_nat: "m < 2147483648 \<Longrightarrow> sint (word_of_nat m :: cint) = int m"
  by (simp add: signed_of_nat signed_take_bit_int_eq_self)

text \<open>
  Under the contract the loop makes one native call, or two: the second call gets a
  buffer of the count the first one reported, and its count fits.
\<close>

lemma contract_two_calls:
  assumes "pool_list_contract N (rados r)"
  shows "\<exists>res c1 out1 s1. ListPools N r s = Some res
           \<and> rados_pool_list N (rados r) 256 s = (c1, out1, s1)
           \<and> (snd res = s1
               \<or> (\<exists>c2 out2. rados_pool_list N (rados r) (nat (sint c1)) s1 = (c2, out2, snd res)))"
proof -
  obtain c1 out1 s1 where call1: "rados_pool_list N (rados r) 256 s = (c1, out1, s1)"
    by (cases "rados_pool_list N (rados r) 256 s") auto
  show ?thesis
  proof (cases "0 \<le> sint c1 \<and> 256 < sint c1")
    case True
    with assms call1 obtain c2 out2 s2
      where call2: "rados_pool_list N (rados r) (nat (sint c1)) s1 = (c2, out2, s2)"
        and fits: "0 \<le> sint c2" "sint c2 \<le> int (nat (sint c1))"
      unfolding pool_list_contract_def by (metis of_nat_numeral order_refl)
    then have "pool_list_loop N (rados r) (nat (sint c1)) s1
        = Some (Inr (fill_buffer (nat (sint c1)) out2), s2)"
      by (subst pool_list_loop.simps) simp
    with call1 True have "pool_list_loop N (rados r) 256 s
        = Some (Inr (fill_buffer (nat (sint c1)) out2), s2)"
      by (subst pool_list_loop.simps) simp
    then have "ListPools N r s = Some (finish_list (Inr (fill_buffer (nat (sint c1)) out2), s2))"
      by (simp add: ListPools_finish)
    with call1 call2 show ?thesis
      by (simp add: finish_list_def)
  next
    case False
    with call1 have "pool_list_loop N (rados r) 256 s =
        Some (if sint c1 < 0 then (Inl (''RADOS list pools: '' @ strerror N c1), s1)
              else (Inr (fill_buffer 256 out1), s1))"
      by (subst pool_list_loop.simps) auto
    then have "ListPools N r s =
        Some (finish_list (if sint c1 < 0 then (Inl (''RADOS list pools: '' @ strerror N c1), s1)
              else (Inr (fill_buffer 256 out1), s1)))"
      by (simp add: ListPools_finish)
    with call1 show ?thesis
      by (simp add: finish_list_def)
  qed
qed

text \<open>
  Against the call \<open>demanding K\<close>, which breaks the contract \<open>K\<close> times, the loop goes on
  from any buffer size \<open>n\<close> for as many calls as are left, one byte more each time.
\<close>

lemma demanding_loop:
  "length log \<le> K \<Longrightarrow> n + (K - length log) < 2147483648 \<Longrightarrow>
   pool_list_loop (scripted e1 e2 e3 e4 e5 (demanding K)) h n log =
     Some (Inr (replicate (n + (K - length log)) NUL),
           log @ replicate (Suc (K - length log)) ''rados_pool_list'')"
proof (induction "K - length log" arbitrary: n log)
  case 0
  then have "length log = K" and "n < 2147483648" by simp_all
  then have "rados_pool_list (scripted e1 e2 e3 e4 e5 (demanding K)) h n log
               = (word_of_nat n, [], log @ [''rados_pool_list''])"
    and "sint (word_of_nat n :: cint) = int n"
    by (simp_all add: scripted_pool_list demanding_def sint_word_of_nat)
  with \<open>length log = K\<close> show ?case
    by (subst pool_list_loop.simps) (simp add: fill_buffer_def)
next
  case (Suc d)
  let ?log = "log @ [''rados_pool_list'']"
  from Suc have less: "length log < K" and d: "d = K - length ?log"
    and bound: "Suc n + (K - length ?log) < 2147483648"
    and le: "length ?log \<le> K"
    by simp_all
  from bound have "Suc n < 2147483648"
    by simp
  with less have "rados_pool_list (scripted e1 e2 e3 e4 e5 (demanding K)) h n log
               = (word_of_nat (Suc n), [], ?log)"
    and "sint (word_of_nat (Suc n) :: cint) = int (Suc n)"
    by (simp_all add: scripted_pool_list demanding_def sint_word_of_nat del: of_nat_Suc)
  then have "pool_list_loop (scripted e1 e2 e3 e4 e5 (demanding K)) h n log =
        pool_list_loop (scripted e1 e2 e3 e4 e5 (demanding K)) h (Suc n) ?log"
    by (subst pool_list_loop.simps) (simp del: of_nat_Suc)
  also have "\<dots> = Some (Inr (replicate (Suc n + (K - length ?log)) NUL),
           ?log @ replicate (Suc (K - length ?log)) ''rados_pool_list'')"
    using Suc.hyps(1) [OF d le bound] .
  also have "\<dots> = Some (Inr (replicate (n + (K - length log)) NUL),
           log @ replicate (Suc (K - length log)) ''rados_pool_list'')"
    using less by (simp add: Suc_diff_Suc replicate_app_Cons_same)
  finally show ?case .
qed

text \<open>
  The count the loop compares with the size of the buffer is a 32-bit \<open>C.int\<close>, and every
  retry takes a strictly larger buffer, so the loop returns whatever the native call
  answers (the allocation of the buffer is taken to succeed): the number of its
  iterations is bounded by the range of \<open>C.int\<close>, not by a counter.
\<close>

lemma pool_list_loop_total: "\<exists>x. pool_list_loop N h n s = Some x"
proof (induction "2147483648 - n" arbitrary: n s rule: less_induct)
  case less
  obtain c out s' where call: "rados_pool_list N h n s = (c, out, s')"
    by (cases "rados_pool_list N h n s") auto
  have bound: "sint c < 2147483648"
    using sint_lt [of c] by simp
  show ?case
  proof (cases "\<not> sint c < 0 \<and> int n < sint c")
    case True
    with bound have "n < nat (sint c)" and "nat (sint c) < 2147483648"
      by linarith+
    then have "2147483648 - nat (sint c) < (2147483648 :: nat) - n"
      by arith
    then obtain x where "pool_list_loop N h (nat (sint c)) s' = Some x"
      using less by blast
    with call True show ?thesis
      by (subst pool_list_loop.simps) simp
  next
    case False
    with call show ?thesis
      by (subst pool_list_loop.simps) auto
  qed
qed

text \<open>
  C3. The retry loop of \<open>ListPools\<close> has no iteration cap of its own, and it ends when
  the native call keeps the contract. First part: when the native call satisfies
  \<open>pool_list_contract\<close>, \<open>ListPools\<close> returns, and it does so after the first native
  call or after the second, made with a buffer of the count the first one reported.
  Second part: the loop itself counts nothing; for every \<open>K\<close> within the range of
  \<open>C.int\<close>, against a native call that asks for one more byte \<open>K\<close> times, \<open>ListPools\<close>
  makes \<open>K + 1\<close> native calls (the log of the calls is the cluster state returned).
\<close>

theorem ListPools_terminates:
  "(pool_list_contract N (rados r) \<longrightarrow>
      (\<exists>res c1 out1 s1. ListPools N r s = Some res
         \<and> rados_pool_list N (rados r) 256 s = (c1, out1, s1)
         \<and> (snd res = s1
             \<or> (\<exists>c2 out2. rados_pool_list N (rados r) (nat (sint c1)) s1
                             = (c2, out2, snd res)))))
   \<and> (256 + K < 2147483648 \<longrightarrow>
        ListPools (scripted 0 0 0 0 0 (demanding K)) r []
          = Some ((Some [], None), replicate (Suc K) ''rados_pool_list''))"
proof (intro conjI impI)
  assume "pool_list_contract N (rados r)"
  then show "\<exists>res c1 out1 s1. ListPools N r s = Some res
         \<and> rados_pool_list N (rados r) 256 s = (c1, out1, s1)
         \<and> (snd res = s1
             \<or> (\<exists>c2 out2. rados_pool_list N (rados r) (nat (sint c1)) s1
                             = (c2, out2, snd res)))"
    by (rule contract_two_calls)
next
  assume "256 + K < 2147483648"
  then have "pool_list_loop (scripted 0 0 0 0 0 (demanding K)) (rados r) 256 []
      = Some (Inr (replicate (256 + K) NUL), replicate (Suc K) ''rados_pool_list'')"
    using demanding_loop [of "[]" K 256 0 0 0 0 0 "rados r"] by simp
  then show "ListPools (scripted 0 0 0 0 0 (demanding K)) r []
          = Some ((Some [], None), replicate (Suc K) ''rados_pool_list'')"
    by (simp add: ListPools_finish finish_list_def parse_pools_zeros)
qed

theorem ListPools_terminates_witness:
  "(\<exists>res. ListPools (scripted 0 0 0 0 0 two_pools) a_handle [] = Some res)
   \<and> ListPools (scripted 0 0 0 0 0 (demanding 1000)) a_handle []
       = Some ((Some [], None), replicate (Suc 1000) ''rados_pool_list'')"
proof -
  have "pool_list_contract (scripted 0 0 0 0 0 two_pools) (rados a_handle)"
    by (auto simp: pool_list_contract_def scripted_pool_list two_pools_def split: if_splits)
  with ListPools_terminates [of "scripted 0 0 0 0 0 two_pools" a_handle "[]" 1000]
  show ?thesis
    by auto
qed

subsection \<open>The entries of the list\<close>

lemma repeated_name_buffer:
  "fill_buffer 256 [CHR ''a'', NUL, CHR ''a'', NUL, NUL]
     = concat (map (\<lambda>x. x @ [NUL]) [''a'', ''a'']) @ NUL # replicate 251 NUL"
  by (simp add: fill_buffer_def)

lemma repeated_name_run:
  "ListPools (scripted e1 e2 e3 e4 e5 repeated_name) r [] =
     Some ((Some [''a'', ''a''], None), [''rados_pool_list''])"
proof -
  let ?N = "scripted e1 e2 e3 e4 e5 repeated_name"
  have "parse_pools (fill_buffer 256 [CHR ''a'', NUL, CHR ''a'', NUL, NUL]) = [''a'', ''a'']"
    unfolding repeated_name_buffer by (rule parse_pools_packed) (simp_all add: NUL_def)
  moreover have "pool_list_loop ?N (rados r) 256 []
      = Some (Inr (fill_buffer 256 [CHR ''a'', NUL, CHR ''a'', NUL, NUL]), [''rados_pool_list''])"
    by (subst pool_list_loop.simps) (simp add: scripted_pool_list repeated_name_def)
  ultimately show ?thesis
    by (simp add: ListPools_finish finish_list_def)
qed

text \<open>
  C4, as stated, fails: \<open>ListPools\<close> removes no duplicate. When the native call stores
  the name \<open>a\<close> twice, the list returned holds \<open>a\<close> twice.
\<close>

theorem ListPools_duplicates_counterexample:
  "ListPools (scripted 0 0 0 0 0 repeated_name) a_handle []
     = Some ((Some [''a'', ''a''], None), [''rados_pool_list''])
   \<and> \<not> distinct [''a'', ''a'']"
  by (simp add: repeated_name_run)

text \<open>
  C4, amended. Every entry of a successful \<open>ListPools\<close> result is a non-empty string
  without a NUL byte, and no error comes with the list. The list is, in order, the
  non-empty segments of the buffer of the native call that fitted, split on NUL bytes:
  every empty segment is discarded, the trailing sentinel included. When that buffer is
  a sequence of NUL-terminated names followed by NUL bytes only, the list is exactly
  those names, so it has no duplicates exactly when the native call reported none.
\<close>

theorem ListPools_entries:
  assumes "ListPools N r s = Some ((Some pools, err), s')"
  shows "err = None
       \<and> (\<forall>p \<in> set pools. p \<noteq> [] \<and> NUL \<notin> set p)
       \<and> (\<exists>n required out s0.
             rados_pool_list N (rados r) n s0 = (required, out, s')
           \<and> 0 \<le> sint required \<and> sint required \<le> int n
           \<and> pools = filter (\<lambda>p. p \<noteq> []) (bytes_Split (fill_buffer n out) NUL)
           \<and> (\<forall>names zs. (\<forall>x \<in> set names. x \<noteq> [] \<and> NUL \<notin> set x) \<and> set zs \<subseteq> {NUL}
                 \<and> fill_buffer n out = concat (map (\<lambda>x. x @ [NUL]) names) @ zs
                 \<longrightarrow> pools = names \<and> (distinct pools \<longleftrightarrow> distinct names)))"
proof -
  from assms obtain x where loop: "pool_list_loop N (rados r) 256 s = Some x"
    and fin: "finish_list x = ((Some pools, err), s')"
    by (auto simp: ListPools_finish)
  from fin obtain buf where x: "x = (Inr buf, s')" and pools: "pools = parse_pools buf"
    and err: "err = None"
    by (auto simp: finish_list_def split: sum.splits prod.splits)
  from loop_fitting_call [OF loop x] obtain n required out s0
    where call: "rados_pool_list N (rados r) n s0 = (required, out, s')"
      and fits: "0 \<le> sint required" "sint required \<le> int n"
      and buf: "buf = fill_buffer n out"
    by blast
  have entries: "\<forall>p \<in> set pools. p \<noteq> [] \<and> NUL \<notin> set p"
    using pools by (auto simp: parse_pools_filter dest: bytes_Split_no_sep)
  have packed: "\<forall>names zs. (\<forall>x \<in> set names. x \<noteq> [] \<and> NUL \<notin> set x) \<and> set zs \<subseteq> {NUL}
                 \<and> fill_buffer n out = concat (map (\<lambda>x. x @ [NUL]) names) @ zs
                 \<longrightarrow> pools = names \<and> (distinct pools \<longleftrightarrow> distinct names)"
    using pools buf by (auto simp: parse_pools_packed)
  from pools buf have "pools = filter (\<lambda>p. p \<noteq> []) (bytes_Split (fill_buffer n out) NUL)"
    by (simp add: parse_pools_filter)
  with call fits packed have "\<exists>n required out s0.
             rados_pool_list N (rados r) n s0 = (required, out, s')
           \<and> 0 \<le> sint required \<and> sint required \<le> int n
           \<and> pools = filter (\<lambda>p. p \<noteq> []) (bytes_Split (fill_buffer n out) NUL)
           \<and> (\<forall>names zs. (\<forall>x \<in> set names. x \<noteq> [] \<and> NUL \<notin> set x) \<and> set zs \<subseteq> {NUL}
                 \<and> fill_buffer n out = concat (map (\<lambda>x. x @ [NUL]) names) @ zs
                 \<longrightarrow> pools = names \<and> (distinct pools \<longleftrightarrow> distinct names))"
    by blast
  with err entries show ?thesis
    by blast
qed

theorem ListPools_entries_witness:
  "ListPools (scripted 0 0 0 0 0 two_pools) a_handle []
     = Some ((Some [''data'', ''metadata''], None), [''rados_pool_list'', ''rados_pool_list''])
   \<and> ''data'' \<noteq> [] \<and> NUL \<notin> set ''data'' \<and> ''metadata'' \<noteq> [] \<and> NUL \<notin> set ''metadata''"
  using ListPools_entries [OF two_pools_run [of 0 0 0 0 0 a_handle]]
  by (simp add: two_pools_run)

subsection \<open>Errors of the native calls\<close>



section \<open>Properties of the pool-scoped session\<close>

text \<open>
  C1. For every object name and every payload \<open>d\<close>, the empty one included, \<open>Put\<close> of
  \<open>d\<close> under the name succeeds and \<open>Get\<close> of the name on the resulting pool returns
  exactly \<open>d\<close>: the same bytes, none cut, none added.
\<close>

theorem Put_Get_roundtrip:
  "\<exists>objs'. Context_Put objs name d = Inr objs' \<and> Context_Get objs' name = Inr d"
  by (simp add: Context_Put_def Context_Get_def Context_Stat_def)

text \<open>
  C8. \<open>Open\<close> on a name that does not exist yet succeeds and creates an object of
  length zero: \<open>Stat\<close> on the name, right after, succeeds and reports size 0.
\<close>

theorem Open_creates_empty:
  assumes "objs name = None"
  shows "\<exists>obj objs'. Context_Open objs name = Inr (obj, objs')
           \<and> Context_Stat objs' name = Inr \<lparr>info_name = name, info_size = 0\<rparr>"
  using assms by (simp add: Context_Open_def Context_Stat_def)

theorem Open_creates_empty_witness:
  "\<exists>obj objs'.
      Context_Open [''test-object'' \<mapsto> ''test data''] ''test-object2'' = Inr (obj, objs')
    \<and> Context_Stat objs' ''test-object2'' = Inr \<lparr>info_name = ''test-object2'', info_size = 0\<rparr>"
  using Open_creates_empty [of "[''test-object'' \<mapsto> ''test data'']" "''test-object2''"]
  by simp

end
